theory Spec2Isabelle
  imports Complex_Main
begin

section \<open>Bayesian optimization (horovod/common/optim/bayesian_optimization.cc)\<close>

text \<open>
  The session class \<open>BayesianOptimization\<close> keeps observed samples, refits a Gaussian
  process surrogate on every \<open>NextSample\<close> and maximises the Expected Improvement by a
  multi-restart local search under a bound penalty.

  Conventions of the embedding:
  \<^item> a \<open>double\<close> is a \<open>real\<close> (exact arithmetic; rounding, infinities and NaN are not
    represented), \<open>Eigen::VectorXd\<close> is a list of reals, \<open>Eigen::MatrixXd\<close> the list of
    its rows;
  \<^item> a violated precondition of a container (\<open>operator[]\<close> out of range, an Eigen size
    assertion) is the \<open>Inl\<close> branch of a result;
  \<^item> what the file calls but does not define (the Gaussian process regressor, the
    L-BFGS solver, the random engine and distribution, \<open>std::erfc\<close>) is a field of the
    record \<open>collaborators\<close>, and every function that reaches one takes that record;
  \<^item> a member \<open>foo_\<close> of the class is the field \<open>foo_m\<close> (an Isabelle name cannot end
    in an underscore).
\<close>

type_synonym vector = "real list"
type_synonym matrix = "real list list"

datatype error = IndexOutOfRange | EmptyMatrix | SizeMismatch

subsection \<open>External collaborators\<close>

text \<open>
  \<open>GaussianProcessRegressor\<close> (constructor, from \<open>alpha\<close>), \<open>Fit\<close>, \<open>Predict\<close> (means and
  standard deviations of the rows of its argument; the call without the \<open>sigma\<close> pointer
  reads the means only) and the static \<open>ApproxFPrime\<close>; \<open>LBFGSSolver::minimize\<close> of
  the solver configured with \<open>epsilon = 1e-5\<close> and \<open>max_iterations = 100\<close>, from an
  objective-and-gradient callback and a start point to the final point and its value;
  a \<open>std::uniform_real_distribution\<close> with parameters \<open>(a, b)\<close> drawing from an engine
  state; \<open>std::erfc\<close>. Callbacks can fail, so they return results.
\<close>

record ('g, 'r) collaborators =
  GaussianProcessRegressor :: "real \<Rightarrow> 'g"
  Fit :: "'g \<Rightarrow> matrix \<Rightarrow> matrix \<Rightarrow> 'g"
  Predict :: "'g \<Rightarrow> matrix \<Rightarrow> vector \<times> vector"
  ApproxFPrime :: "vector \<Rightarrow> (vector \<Rightarrow> error + real) \<Rightarrow> real \<Rightarrow> error + vector"
  minimize :: "(vector \<Rightarrow> error + real \<times> vector) \<Rightarrow> vector \<Rightarrow> error + vector \<times> real"
  uniform_real_distribution :: "real \<times> real \<Rightarrow> 'r \<Rightarrow> real \<times> 'r"
  std_erfc :: "real \<Rightarrow> real"

subsection \<open>Session state\<close>

record ('g, 'r) BayesianOptimization =
  d_m :: nat
  bounds_m :: "(real \<times> real) list"
  xi_m :: real
  dists_m :: "(real \<times> real) list"
  gen_m :: 'r
  gpr_m :: 'g
  x_samples_m :: "vector list"
  y_samples_m :: "vector list"

text \<open>\<open>std::numeric_limits<double>::max()\<close>, the largest finite binary64 value.\<close>

definition DBL_MAX :: real where
  "DBL_MAX = (2 ^ 53 - 1) * 2 ^ 971"

text \<open>One distribution per bound, in order; a distribution is its parameter pair.\<close>

definition GetDistributions :: "(real \<times> real) list \<Rightarrow> (real \<times> real) list" where
  "GetDistributions bounds = fold (\<lambda>bound dists. dists @ [(fst bound, snd bound)]) bounds []"

text \<open>
  The constructor. The engine \<open>gen_\<close> is declared and seeded in the header, which is
  not part of the sources: its initial state is the argument \<open>seed\<close>.
\<close>

definition BayesianOptimization_init ::
  "('g, 'r) collaborators \<Rightarrow> (real \<times> real) list \<Rightarrow> real \<Rightarrow> real \<Rightarrow> 'r \<Rightarrow> ('g, 'r) BayesianOptimization" where
  "BayesianOptimization_init ext bounds alpha xi seed =
     \<lparr> d_m = length bounds,
       bounds_m = bounds,
       xi_m = xi,
       dists_m = GetDistributions bounds,
       gen_m = seed,
       gpr_m = GaussianProcessRegressor ext alpha,
       x_samples_m = [],
       y_samples_m = [] \<rparr>"

definition AddSample_vec ::
  "('g, 'r) BayesianOptimization \<Rightarrow> vector \<Rightarrow> vector \<Rightarrow> ('g, 'r) BayesianOptimization" where
  "AddSample_vec s x y =
     s\<lparr> x_samples_m := x_samples_m s @ [x], y_samples_m := y_samples_m s @ [y] \<rparr>"

definition AddSample ::
  "('g, 'r) BayesianOptimization \<Rightarrow> vector \<Rightarrow> real \<Rightarrow> ('g, 'r) BayesianOptimization" where
  "AddSample s x y = (let y_v = [y] in AddSample_vec s x y_v)"

definition Clear :: "('g, 'r) BayesianOptimization \<Rightarrow> ('g, 'r) BayesianOptimization" where
  "Clear s = s\<lparr> x_samples_m := [], y_samples_m := [] \<rparr>"

subsection \<open>CheckBounds\<close>

text \<open>
  The loop \<open>for (int i = 0; i < x.size(); i++)\<close> with its early \<open>return false\<close>.
  \<open>bounds_[i]\<close> with \<open>i\<close> beyond the bounds is the error \<open>IndexOutOfRange\<close>.
\<close>

function CheckBounds_loop :: "(real \<times> real) list \<Rightarrow> vector \<Rightarrow> nat \<Rightarrow> error + bool" where
  "CheckBounds_loop bs x i =
     (if i < length x then
        (if i < length bs then
           (if x ! i < fst (bs ! i) \<or> x ! i > snd (bs ! i) then Inr False
            else CheckBounds_loop bs x (Suc i))
         else Inl IndexOutOfRange)
      else Inr True)"
  by pat_completeness auto
termination
  by (relation "measure (\<lambda>(bs, x, i). length x - i)") auto

declare CheckBounds_loop.simps [simp del]

definition CheckBounds :: "('g, 'r) BayesianOptimization \<Rightarrow> vector \<Rightarrow> error + bool" where
  "CheckBounds s x = CheckBounds_loop (bounds_m s) x 0"

text \<open>Coordinate \<open>i\<close> of \<open>x\<close> lies in the closed interval of bound \<open>i\<close>.\<close>

definition in_bound :: "(real \<times> real) list \<Rightarrow> vector \<Rightarrow> nat \<Rightarrow> bool" where
  "in_bound bs x i = (fst (bs ! i) \<le> x ! i \<and> x ! i \<le> snd (bs ! i))"

subsection \<open>Expected Improvement\<close>

definition NORM_PDF_C :: real where
  "NORM_PDF_C = sqrt (2 * pi)"

text \<open>The constant \<open>M_SQRT1_2\<close> of \<open>math.h\<close>.\<close>

definition M_SQRT1_2 :: real where
  "M_SQRT1_2 = 1 / sqrt 2"

definition pdf :: "real \<Rightarrow> real" where
  "pdf x = exp (- (x * x) / 2) / NORM_PDF_C"

definition cdf :: "('g, 'r) collaborators \<Rightarrow> real \<Rightarrow> real" where
  "cdf ext x = 0.5 * std_erfc ext (- x * M_SQRT1_2)"

text \<open>
  \<open>maxCoeff\<close> reduces with \<open>max\<close> from the first coefficient on; Eigen asserts that the
  vector is not empty.
\<close>

fun maxCoeff :: "vector \<Rightarrow> error + real" where
  "maxCoeff [] = Inl EmptyMatrix"
| "maxCoeff (v # vs) = Inr (fold (\<lambda>c res. max res c) vs v)"

text \<open>A coefficient-wise binary operation; Eigen asserts that the sizes agree.\<close>

definition cwise :: "(real \<Rightarrow> real \<Rightarrow> real) \<Rightarrow> vector \<Rightarrow> vector \<Rightarrow> error + vector" where
  "cwise f a b = (if length a = length b then Inr (map2 f a b) else Inl SizeMismatch)"

text \<open>
  \<open>ExpectedImprovement(x, x_sample)\<close>. Where \<open>sigma\<close> is 0 the quotient \<open>z\<close> is infinite
  or NaN in the program and 0 in HOL; the final \<open>select\<close> discards the entry built from
  it in both.
\<close>

definition ExpectedImprovement ::
  "('g, 'r) collaborators \<Rightarrow> ('g, 'r) BayesianOptimization \<Rightarrow> matrix \<Rightarrow> matrix \<Rightarrow> error + vector" where
  "ExpectedImprovement ext s x x_sample =
     (let (mu, sigma) = Predict ext (gpr_m s) x;
          mu_sample = fst (Predict ext (gpr_m s) x_sample)
      in case maxCoeff mu_sample of
           Inl e \<Rightarrow> Inl e
         | Inr mu_sample_opt \<Rightarrow>
             (let imp = map (\<lambda>m. m - mu_sample_opt - xi_m s) mu
              in case cwise (\<lambda>a b. a / b) imp sigma of
                   Inl e \<Rightarrow> Inl e
                 | Inr z \<Rightarrow>
                     (case cwise (\<lambda>a b. a * b) imp (map (cdf ext) z) of
                        Inl e \<Rightarrow> Inl e
                      | Inr l \<Rightarrow>
                          (case cwise (\<lambda>a b. a * b) sigma (map pdf z) of
                             Inl e \<Rightarrow> Inl e
                           | Inr r \<Rightarrow>
                               (case cwise (\<lambda>a b. a + b) l r of
                                  Inl e \<Rightarrow> Inl e
                                | Inr ei \<Rightarrow>
                                    cwise (\<lambda>sg e. if sg \<noteq> 0 then e else 0) sigma ei)))))"

subsection \<open>ProposeLocation\<close>

text \<open>The lambda \<open>f\<close>: the negated first entry of the Expected Improvement at the row \<open>x\<close>.\<close>

definition f_obj ::
  "('g, 'r) collaborators \<Rightarrow> ('g, 'r) BayesianOptimization \<Rightarrow> matrix \<Rightarrow> vector \<Rightarrow> error + real" where
  "f_obj ext s x_sample x =
     (case ExpectedImprovement ext s [x] x_sample of
        Inl e \<Rightarrow> Inl e
      | Inr ei \<Rightarrow> if 0 < length ei then Inr (- (ei ! 0)) else Inl IndexOutOfRange)"

text \<open>The lambda \<open>min_obj\<close>: value and gradient.\<close>

definition min_obj ::
  "('g, 'r) collaborators \<Rightarrow> ('g, 'r) BayesianOptimization \<Rightarrow> matrix \<Rightarrow> vector
     \<Rightarrow> error + real \<times> vector" where
  "min_obj ext s x_sample x =
     (case CheckBounds s x of
        Inl e \<Rightarrow> Inl e
      | Inr ok \<Rightarrow>
          (case (if ok then f_obj ext s x_sample x else Inr DBL_MAX) of
             Inl e \<Rightarrow> Inl e
           | Inr f0 \<Rightarrow>
               (case ApproxFPrime ext x (f_obj ext s x_sample) f0 of
                  Inl e \<Rightarrow> Inl e
                | Inr grad \<Rightarrow> Inr (f0, grad))))"

text \<open>
  The inner loop \<open>for (int j = 0; j < d_; j++) x[j] = dists_[j](gen_)\<close> on the zero
  vector \<open>x\<close>, threading the engine state.
\<close>

function draw_loop ::
  "('g, 'r) collaborators \<Rightarrow> (real \<times> real) list \<Rightarrow> nat \<Rightarrow> nat \<Rightarrow> vector \<Rightarrow> 'r \<Rightarrow> error + vector \<times> 'r" where
  "draw_loop ext dists d j x gen =
     (if j < d then
        (if j < length dists then
           (let (v, gen') = uniform_real_distribution ext (dists ! j) gen
            in draw_loop ext dists d (Suc j) (x[j := v]) gen')
         else Inl IndexOutOfRange)
      else Inr (x, gen))"
  by pat_completeness auto
termination
  by (relation "measure (\<lambda>(ext, dists, d, j, x, gen). d - j)") auto

declare draw_loop.simps [simp del]

text \<open>
  The restart loop \<open>for (int i = 0; i < n_restarts; i++)\<close> with the running best
  \<open>(x_next, fx_min)\<close>; \<open>solver.minimize\<close> overwrites \<open>x\<close> and \<open>fx\<close> (the copy \<open>x0\<close> of the
  start point is never read).
\<close>

function restart_loop ::
  "('g, 'r) collaborators \<Rightarrow> ('g, 'r) BayesianOptimization \<Rightarrow> (vector \<Rightarrow> error + real \<times> vector)
     \<Rightarrow> int \<Rightarrow> int \<Rightarrow> vector \<Rightarrow> real \<Rightarrow> 'r \<Rightarrow> error + vector \<times> real \<times> 'r" where
  "restart_loop ext s obj n_restarts i x_next fx_min gen =
     (if i < n_restarts then
        (case draw_loop ext (dists_m s) (d_m s) 0 (replicate (d_m s) 0) gen of
           Inl e \<Rightarrow> Inl e
         | Inr (x, gen') \<Rightarrow>
             (case minimize ext obj x of
                Inl e \<Rightarrow> Inl e
              | Inr (x', fx) \<Rightarrow>
                  if fx < fx_min then restart_loop ext s obj n_restarts (i + 1) x' fx gen'
                  else restart_loop ext s obj n_restarts (i + 1) x_next fx_min gen'))
      else Inr (x_next, fx_min, gen))"
  by pat_completeness auto
termination
  by (relation "measure (\<lambda>(ext, s, obj, n_restarts, i, x_next, fx_min, gen). nat (n_restarts - i))") auto

declare restart_loop.simps [simp del]

text \<open>\<open>ProposeLocation\<close> returns the proposal; the session keeps the advanced engine.\<close>

definition ProposeLocation ::
  "('g, 'r) collaborators \<Rightarrow> ('g, 'r) BayesianOptimization \<Rightarrow> matrix \<Rightarrow> matrix \<Rightarrow> int
     \<Rightarrow> error + vector \<times> ('g, 'r) BayesianOptimization" where
  "ProposeLocation ext s x_sample y_sample n_restarts =
     (case restart_loop ext s (min_obj ext s x_sample) n_restarts 0
             (replicate (d_m s) 0) DBL_MAX (gen_m s) of
        Inl e \<Rightarrow> Inl e
      | Inr (x_next, fx_min, gen') \<Rightarrow> Inr (x_next, s\<lparr> gen_m := gen' \<rparr>))"

subsection \<open>NextSample\<close>

text \<open>
  Filling a matrix of \<open>cols\<close> columns row by row from vectors; Eigen asserts that each
  vector has \<open>cols\<close> entries.
\<close>

fun assemble :: "nat \<Rightarrow> vector list \<Rightarrow> error + matrix" where
  "assemble cols [] = Inr []"
| "assemble cols (v # vs) =
     (if length v = cols then
        (case assemble cols vs of Inl e \<Rightarrow> Inl e | Inr m \<Rightarrow> Inr (v # m))
      else Inl SizeMismatch)"

text \<open>
  Modelled from the spec: the default value of the parameter \<open>n_restarts\<close>, declared in
  the header \<open>bayesian_optimization.h\<close>, which is not part of the sources ("a fixed
  number of restarts (default 25)").
\<close>

definition n_restarts_default :: int where
  "n_restarts_default = 25"

definition NextSample ::
  "('g, 'r) collaborators \<Rightarrow> ('g, 'r) BayesianOptimization
     \<Rightarrow> error + vector \<times> ('g, 'r) BayesianOptimization" where
  "NextSample ext s =
     (case assemble (d_m s) (x_samples_m s) of
        Inl e \<Rightarrow> Inl e
      | Inr x_sample \<Rightarrow>
          (case assemble 1 (y_samples_m s) of
             Inl e \<Rightarrow> Inl e
           | Inr y_sample \<Rightarrow>
               ProposeLocation ext (s\<lparr> gpr_m := Fit ext (gpr_m s) x_sample y_sample \<rparr>)
                 x_sample y_sample n_restarts_default))"

section \<open>Notions used by the properties\<close>

subsection \<open>The Expected Improvement formula as the specification writes it\<close>

definition spec_phi :: "real \<Rightarrow> real" where
  "spec_phi z = exp (- (z\<^sup>2) / 2) / sqrt (2 * pi)"

definition spec_Phi :: "(real \<Rightarrow> real) \<Rightarrow> real \<Rightarrow> real" where
  "spec_Phi erfc z = 0.5 * erfc (- z / sqrt 2)"

definition spec_EI :: "(real \<Rightarrow> real) \<Rightarrow> real \<Rightarrow> real \<Rightarrow> real \<Rightarrow> real \<Rightarrow> real" where
  "spec_EI erfc mu sigma mu_sample_opt xi =
     (let imp = mu - mu_sample_opt - xi; z = imp / sigma
      in imp * spec_Phi erfc z + sigma * spec_phi z)"

subsection \<open>The pairs returned by the solver over the restarts\<close>

text \<open>
  The final point and value of each of \<open>k\<close> consecutive restarts from the engine state
  \<open>gen\<close>, in order, and the engine state after them.
\<close>

fun restart_results ::
  "('g, 'r) collaborators \<Rightarrow> ('g, 'r) BayesianOptimization \<Rightarrow> (vector \<Rightarrow> error + real \<times> vector)
     \<Rightarrow> nat \<Rightarrow> 'r \<Rightarrow> error + (vector \<times> real) list \<times> 'r" where
  "restart_results ext s obj 0 gen = Inr ([], gen)"
| "restart_results ext s obj (Suc k) gen =
     (case draw_loop ext (dists_m s) (d_m s) 0 (replicate (d_m s) 0) gen of
        Inl e \<Rightarrow> Inl e
      | Inr (x, gen') \<Rightarrow>
          (case minimize ext obj x of
             Inl e \<Rightarrow> Inl e
           | Inr r \<Rightarrow>
               (case restart_results ext s obj k gen' of
                  Inl e \<Rightarrow> Inl e
                | Inr (rs, gen'') \<Rightarrow> Inr (r # rs, gen''))))"

definition keep_best :: "vector \<times> real \<Rightarrow> vector \<times> real \<Rightarrow> vector \<times> real" where
  "keep_best r best = (if snd r < snd best then r else best)"

subsection \<open>Contracts of the collaborators\<close>

text \<open>
  The value the solver reports is the value of the objective at the point it returns.
\<close>

definition reports_value :: "('g, 'r) collaborators \<Rightarrow> bool" where
  "reports_value ext =
     (\<forall>obj x0 x fx. minimize ext obj x0 = Inr (x, fx) \<longrightarrow> (\<exists>grad. obj x = Inr (fx, grad)))"

text \<open>
  The solver evaluates the objective at the start point and never returns a point with a
  greater value than there (it is a descent method: each accepted step satisfies the
  sufficient-decrease condition).
\<close>

definition descent :: "('g, 'r) collaborators \<Rightarrow> bool" where
  "descent ext =
     (\<forall>obj x0 x fx. minimize ext obj x0 = Inr (x, fx) \<longrightarrow>
        (\<exists>f0 grad. obj x0 = Inr (f0, grad) \<and> fx \<le> f0))"

text \<open>The solver returns a point with as many coordinates as the start point.\<close>

definition keeps_size :: "('g, 'r) collaborators \<Rightarrow> bool" where
  "keeps_size ext =
     (\<forall>obj x0 x fx. minimize ext obj x0 = Inr (x, fx) \<longrightarrow> length x = length x0)"

text \<open>A distribution with parameters \<open>a \<le> b\<close> draws from the interval between them.\<close>

definition draws_in_range :: "('g, 'r) collaborators \<Rightarrow> bool" where
  "draws_in_range ext =
     (\<forall>a b gen. a \<le> b \<longrightarrow>
        a \<le> fst (uniform_real_distribution ext (a, b) gen) \<and>
        fst (uniform_real_distribution ext (a, b) gen) \<le> b)"

text \<open>
  The negated Expected Improvement, where it is defined, is below the largest double:
  no prediction makes it \<open>DBL_MAX\<close> or more.
\<close>

definition objective_below_max ::
  "('g, 'r) collaborators \<Rightarrow> ('g, 'r) BayesianOptimization \<Rightarrow> matrix \<Rightarrow> bool" where
  "objective_below_max ext s x_sample =
     (\<forall>x v. f_obj ext s x_sample x = Inr v \<longrightarrow> v < DBL_MAX)"


text \<open>The regressors built with \<open>alpha\<close>: the constructed one and every refit of one.\<close>

inductive regressor_of :: "('g, 'r) collaborators \<Rightarrow> real \<Rightarrow> 'g \<Rightarrow> bool"
  for ext :: "('g, 'r) collaborators" and alpha :: real where
  constructed: "regressor_of ext alpha (GaussianProcessRegressor ext alpha)"
| refitted: "regressor_of ext alpha g \<Longrightarrow> regressor_of ext alpha (Fit ext g X y)"

text \<open>
  \<open>Fit\<close> is determined by the data and \<open>alpha\<close>: refitting a regressor built with
  \<open>alpha\<close> gives what fitting the newly constructed one gives.
\<close>

definition Fit_deterministic :: "('g, 'r) collaborators \<Rightarrow> bool" where
  "Fit_deterministic ext =
     (\<forall>alpha g X y. regressor_of ext alpha g \<longrightarrow>
        Fit ext g X y = Fit ext (GaussianProcessRegressor ext alpha) X y)"

text \<open>The sessions constructed with \<open>bounds\<close>, \<open>alpha\<close> and \<open>xi\<close>, at any later time.\<close>

definition session_of ::
  "('g, 'r) collaborators \<Rightarrow> (real \<times> real) list \<Rightarrow> real \<Rightarrow> real \<Rightarrow> ('g, 'r) BayesianOptimization \<Rightarrow> bool" where
  "session_of ext bounds alpha xi s =
     (d_m s = length bounds \<and> bounds_m s = bounds \<and> xi_m s = xi \<and>
      dists_m s = GetDistributions bounds \<and> regressor_of ext alpha (gpr_m s))"

text \<open>The session as \<open>NextSample\<close> hands it to \<open>ProposeLocation\<close>: after the refit.\<close>

definition refit ::
  "('g, 'r) collaborators \<Rightarrow> ('g, 'r) BayesianOptimization \<Rightarrow> ('g, 'r) BayesianOptimization" where
  "refit ext s = s\<lparr> gpr_m := Fit ext (gpr_m s) (x_samples_m s) (y_samples_m s) \<rparr>"

definition add_all ::
  "('g, 'r) BayesianOptimization \<Rightarrow> (vector \<times> vector) list \<Rightarrow> ('g, 'r) BayesianOptimization" where
  "add_all s samples = fold (\<lambda>(x, y) s'. AddSample_vec s' x y) samples s"

subsection \<open>Stand-ins for the collaborators, for concrete runs\<close>

text \<open>
  A regressor that stores \<open>alpha\<close> and the training data; an engine that is a counter,
  whose distribution walks through the quarter points of its interval; a gradient that
  is flat; a stand-in for \<open>std::erfc\<close> of the same shape. The prediction and the solver
  are arguments.
\<close>

definition counter_uniform :: "real \<times> real \<Rightarrow> nat \<Rightarrow> real \<times> nat" where
  "counter_uniform p n = (fst p + (snd p - fst p) * (real (n mod 4) / 4), n + 1)"

definition example_erfc :: "real \<Rightarrow> real" where
  "example_erfc t = 1 - t / (1 + \<bar>t\<bar>)"

definition example_ext ::
  "(matrix \<Rightarrow> matrix \<Rightarrow> vector \<times> vector)
     \<Rightarrow> ((vector \<Rightarrow> error + real \<times> vector) \<Rightarrow> vector \<Rightarrow> error + vector \<times> real)
     \<Rightarrow> (real \<times> matrix \<times> matrix, nat) collaborators" where
  "example_ext predict solver =
     \<lparr> GaussianProcessRegressor = (\<lambda>alpha. (alpha, [], [])),
       Fit = (\<lambda>g X y. (fst g, X, y)),
       Predict = (\<lambda>g Q. predict (fst (snd g)) Q),
       ApproxFPrime = (\<lambda>x f f0. Inr (replicate (length x) 0)),
       minimize = solver,
       uniform_real_distribution = counter_uniform,
       std_erfc = example_erfc \<rparr>"

text \<open>Predictions: the mean is the sum of the coordinates; no or unit uncertainty.\<close>

definition predict_certain :: "matrix \<Rightarrow> matrix \<Rightarrow> vector \<times> vector" where
  "predict_certain X Q = (map sum_list Q, map (\<lambda>row. 0) Q)"

definition predict_unit :: "matrix \<Rightarrow> matrix \<Rightarrow> vector \<times> vector" where
  "predict_unit X Q = (map sum_list Q, map (\<lambda>row. 1) Q)"

text \<open>
  The solver: one that has converged at its start point (the gradient it is given is
  flat) and returns it with the value of the objective there.
\<close>

definition stay_put :: "(vector \<Rightarrow> error + real \<times> vector) \<Rightarrow> vector \<Rightarrow> error + vector \<times> real" where
  "stay_put obj x0 = (case obj x0 of Inl e \<Rightarrow> Inl e | Inr (fx, grad) \<Rightarrow> Inr (x0, fx))"




text \<open>The two combinations used below.\<close>

definition certain_ext :: "(real \<times> matrix \<times> matrix, nat) collaborators" where
  "certain_ext = example_ext predict_certain stay_put"

definition unit_ext :: "(real \<times> matrix \<times> matrix, nat) collaborators" where
  "unit_ext = example_ext predict_unit stay_put"


subsection \<open>Example sessions\<close>

text \<open>
  The scenario of the specification: one dimension bounded by \<open>[0, 1]\<close>, \<open>alpha = 1e-6\<close>,
  \<open>xi = 0.01\<close>; the engine starts at \<open>seed\<close>.
\<close>

definition example_session ::
  "(real \<times> matrix \<times> matrix, nat) collaborators \<Rightarrow> nat
     \<Rightarrow> (real \<times> matrix \<times> matrix, nat) BayesianOptimization" where
  "example_session ext seed = BayesianOptimization_init ext [(0, 1)] (1 / 1000000) (1 / 100) seed"

text \<open>
  The same scenario with the interval \<open>[1, 2]\<close>, which does not contain 0, and the
  sample \<open>1.5 -> 2.0\<close>.
\<close>

definition shifted_session ::
  "(real \<times> matrix \<times> matrix, nat) collaborators
     \<Rightarrow> (real \<times> matrix \<times> matrix, nat) BayesianOptimization" where
  "shifted_session ext =
     AddSample (BayesianOptimization_init ext [(1, 2)] (1 / 1000000) (1 / 100) 0) [3 / 2] 2"

text \<open>
  A session that has been used: constructed with seed 1, given the sample \<open>0.25 -> 5.0\<close>
  and asked for one proposal (25 restarts in one dimension move the engine to 26).
\<close>

definition used_session :: "(real \<times> matrix \<times> matrix, nat) BayesianOptimization" where
  "used_session =
     \<lparr> d_m = 1, bounds_m = [(0, 1)], xi_m = 1 / 100, dists_m = [(0, 1)], gen_m = 26,
       gpr_m = (1 / 1000000, [[1 / 4]], [[5]]), x_samples_m = [[1 / 4]], y_samples_m = [[5]] \<rparr>"

section \<open>Properties\<close>

subsection \<open>CheckBounds\<close>

lemma CheckBounds_loop_char:
  "CheckBounds_loop bs x i =
     (if \<forall>j. i \<le> j \<and> j < min (length x) (length bs) \<longrightarrow> in_bound bs x j
      then (if length x \<le> max i (length bs) then Inr True else Inl IndexOutOfRange)
      else Inr False)"
proof (induction bs x i rule: CheckBounds_loop.induct)
  case (1 bs x i)
  show ?case
  proof (cases "i < length x")
    case False
    then show ?thesis
      by (subst CheckBounds_loop.simps) auto
  next
    case inx: True
    show ?thesis
    proof (cases "i < length bs")
      case False
      with inx show ?thesis
        by (subst CheckBounds_loop.simps) auto
    next
      case inb: True
      show ?thesis
      proof (cases "in_bound bs x i")
        case False
        with inx inb have "CheckBounds_loop bs x i = Inr False"
          by (subst CheckBounds_loop.simps) (auto simp: in_bound_def)
        moreover from False inx inb
        have "\<not> (\<forall>j. i \<le> j \<and> j < min (length x) (length bs) \<longrightarrow> in_bound bs x j)"
          by (intro notI) (auto dest: spec [of _ i])
        ultimately show ?thesis by simp
      next
        case True
        with inx inb have step: "CheckBounds_loop bs x i = CheckBounds_loop bs x (Suc i)"
          by (subst CheckBounds_loop.simps) (auto simp: in_bound_def)
        from True inx inb have ok: "\<not> (x ! i < fst (bs ! i) \<or> x ! i > snd (bs ! i))"
          by (auto simp: in_bound_def)
        have all: "(\<forall>j. i \<le> j \<and> j < min (length x) (length bs) \<longrightarrow> in_bound bs x j)
              = (\<forall>j. Suc i \<le> j \<and> j < min (length x) (length bs) \<longrightarrow> in_bound bs x j)"
          using True by (metis Suc_leD Suc_leI le_neq_implies_less)
        have mx: "max (Suc i) (length bs) = max i (length bs)"
          using inb by simp
        show ?thesis
          unfolding step "1.IH" [OF inx inb ok] all mx ..
      qed
    qed
  qed
qed

lemma CheckBounds_short:
  assumes "length x \<le> length (bounds_m s)"
  shows "CheckBounds s x = Inr (\<forall>i<length x. in_bound (bounds_m s) x i)"
  using assms unfolding CheckBounds_def CheckBounds_loop_char by (auto simp: min_def)

lemma CheckBounds_True:
  assumes "CheckBounds s x = Inr True"
  shows "length x \<le> length (bounds_m s) \<and> (\<forall>i<length x. in_bound (bounds_m s) x i)"
  using assms unfolding CheckBounds_def CheckBounds_loop_char
  by (auto simp: min_def split: if_splits)

text \<open>
  C10 (as amended). \<open>CheckBounds\<close> reads \<open>bounds_[i]\<close> for \<open>i\<close> from 0 upwards and stops at
  the first coordinate outside its interval. For a vector no longer than the bounds
  every read is in range and the answer is decided by the coordinates present alone: it
  is true exactly when each of them lies in its closed interval. For a longer vector the
  out-of-range read happens exactly when the first \<open>d\<close> coordinates all lie in their
  intervals; otherwise the answer is false before any such read.
\<close>

theorem CheckBounds_access:
  "CheckBounds s x =
     (if \<forall>i. i < min (length x) (length (bounds_m s)) \<longrightarrow> in_bound (bounds_m s) x i
      then (if length x \<le> length (bounds_m s) then Inr True else Inl IndexOutOfRange)
      else Inr False)"
  unfolding CheckBounds_def CheckBounds_loop_char by simp

lemma example_session_bounds: "bounds_m (example_session ext seed) = [(0, 1)]"
  by (simp add: example_session_def BayesianOptimization_init_def)

theorem CheckBounds_access_witness:
  "CheckBounds (example_session certain_ext 0) [1 / 2] = Inr True \<and>
   CheckBounds (example_session certain_ext 0) [] = Inr True \<and>
   CheckBounds (example_session certain_ext 0) [3] = Inr False \<and>
   CheckBounds (example_session certain_ext 0) [1 / 2, 7] = Inl IndexOutOfRange"
  using CheckBounds_access [of "example_session certain_ext 0" "[1 / 2]"]
    CheckBounds_access [of "example_session certain_ext 0" "[]"]
    CheckBounds_access [of "example_session certain_ext 0" "[3]"]
    CheckBounds_access [of "example_session certain_ext 0" "[1 / 2, 7]"]
  by (simp add: example_session_bounds in_bound_def)

text \<open>
  C10 as stated fails: a vector longer than the bounds whose first coordinate is already
  outside its interval is answered with false, and no read is out of range.
\<close>

theorem CheckBounds_long_vector_counterexample:
  "length (bounds_m (example_session certain_ext 0)) < length [5, 0 :: real] \<and>
   CheckBounds (example_session certain_ext 0) [5, 0] = Inr False"
  by (simp add: example_session_bounds CheckBounds_def CheckBounds_loop.simps)

subsection \<open>Expected Improvement\<close>

lemma maxCoeff_Max: "ms \<noteq> [] \<Longrightarrow> maxCoeff ms = Inr (Max (set ms))"
proof (cases ms)
  case Nil
  then show "ms \<noteq> [] \<Longrightarrow> ?thesis" by simp
next
  case (Cons v vs)
  have "(\<lambda>c res. max res c) = (max :: real \<Rightarrow> real \<Rightarrow> real)"
    by (intro ext) (simp add: max.commute)
  moreover have "Max (set (v # vs)) = fold max vs v"
    by (rule Max.set_eq_fold)
  ultimately show ?thesis
    using Cons by simp
qed

lemma pdf_spec: "pdf z = spec_phi z"
  by (simp add: pdf_def spec_phi_def NORM_PDF_C_def power2_eq_square)

lemma cdf_spec: "cdf ext z = spec_Phi (std_erfc ext) z"
  by (simp add: cdf_def spec_Phi_def M_SQRT1_2_def)

text \<open>
  The whole function in one equation: the two size assertions, then entry by entry the
  formula where \<open>sigma\<close> is not 0 and 0 where it is.
\<close>

lemma ExpectedImprovement_char:
  "ExpectedImprovement ext s x x_sample =
     (let mu = fst (Predict ext (gpr_m s) x); sigma = snd (Predict ext (gpr_m s) x);
          mu_sample = fst (Predict ext (gpr_m s) x_sample)
      in if mu_sample = [] then Inl EmptyMatrix
         else if length mu \<noteq> length sigma then Inl SizeMismatch
         else Inr (map2 (\<lambda>m sg. if sg \<noteq> 0
                                then spec_EI (std_erfc ext) m sg (Max (set mu_sample)) (xi_m s)
                                else 0) mu sigma))"
proof -
  obtain mu sigma where P: "Predict ext (gpr_m s) x = (mu, sigma)"
    by (cases "Predict ext (gpr_m s) x")
  show ?thesis
  proof (cases "fst (Predict ext (gpr_m s) x_sample) = []")
    case True
    then show ?thesis by (simp add: ExpectedImprovement_def P)
  next
    case ne: False
    show ?thesis
    proof (cases "length mu = length sigma")
      case False
      then show ?thesis using ne
        by (simp add: ExpectedImprovement_def P maxCoeff_Max cwise_def Let_def)
    next
      case True
      then show ?thesis using ne
        apply (simp add: ExpectedImprovement_def P maxCoeff_Max cwise_def Let_def)
        apply (rule nth_equalityI)
         apply simp
        apply (simp add: spec_EI_def pdf_spec cdf_spec Let_def)
        done
    qed
  qed
qed

text \<open>
  C2. Where the predictive standard deviation of a query point is exactly 0, the entry
  of \<open>ExpectedImprovement\<close> for that point is exactly 0, whatever the means, the
  threshold and \<open>xi\<close> are. (The function returns once the regressor gives a mean for at
  least one sample row and as many deviations as means.)
\<close>

theorem ExpectedImprovement_zero_sigma:
  assumes "fst (Predict ext (gpr_m s) x_sample) \<noteq> []"
    and "length (fst (Predict ext (gpr_m s) x)) = length (snd (Predict ext (gpr_m s) x))"
    and "i < length (snd (Predict ext (gpr_m s) x))"
    and "snd (Predict ext (gpr_m s) x) ! i = 0"
  shows "\<exists>ei. ExpectedImprovement ext s x x_sample = Inr ei \<and> i < length ei \<and> ei ! i = 0"
  using assms by (simp add: ExpectedImprovement_char Let_def)

text \<open>
  C3. Where the predictive standard deviation \<open>sigma\<close> of a query point is not 0, the
  entry for that point is \<open>imp * Phi z + sigma * phi z\<close> with
  \<open>imp = mu - mu_sample_opt - xi\<close>, \<open>z = imp / sigma\<close>,
  \<open>phi z = exp (- z\<^sup>2 / 2) / sqrt (2 * pi)\<close> and \<open>Phi z = 0.5 * erfc (- z / sqrt 2)\<close>,
  where \<open>mu_sample_opt\<close> is what \<open>maxCoeff\<close> returns on the means at the sample rows.
\<close>

theorem ExpectedImprovement_formula:
  assumes "fst (Predict ext (gpr_m s) x_sample) \<noteq> []"
    and "length (fst (Predict ext (gpr_m s) x)) = length (snd (Predict ext (gpr_m s) x))"
    and "i < length (snd (Predict ext (gpr_m s) x))"
    and "snd (Predict ext (gpr_m s) x) ! i \<noteq> 0"
  shows "\<exists>ei mu_sample_opt.
           ExpectedImprovement ext s x x_sample = Inr ei \<and> i < length ei \<and>
           maxCoeff (fst (Predict ext (gpr_m s) x_sample)) = Inr mu_sample_opt \<and>
           ei ! i = spec_EI (std_erfc ext) (fst (Predict ext (gpr_m s) x) ! i)
                      (snd (Predict ext (gpr_m s) x) ! i) mu_sample_opt (xi_m s)"
  using assms by (simp add: ExpectedImprovement_char maxCoeff_Max Let_def)

text \<open>
  C4. The threshold of \<open>ExpectedImprovement\<close> is the greatest of the regressor's
  predictive means at the rows of \<open>x_sample\<close>, the observed inputs; the observed outputs
  \<open>y_sample\<close> are an argument of \<open>ProposeLocation\<close> that nothing reads.
\<close>

theorem threshold_is_fitted_mean:
  assumes "ExpectedImprovement ext s x x_sample = Inr ei"
  shows "fst (Predict ext (gpr_m s) x_sample) \<noteq> [] \<and>
         ei = map2 (\<lambda>m sg. if sg \<noteq> 0
                     then spec_EI (std_erfc ext) m sg
                            (Max (set (fst (Predict ext (gpr_m s) x_sample)))) (xi_m s)
                     else 0)
                (fst (Predict ext (gpr_m s) x)) (snd (Predict ext (gpr_m s) x)) \<and>
         ProposeLocation ext s x_sample y_sample n = ProposeLocation ext s x_sample y_sample' n"
  using assms
  by (auto simp: ExpectedImprovement_char Let_def ProposeLocation_def split: if_splits)







subsection \<open>The objective of the minimisation\<close>

text \<open>
  C6. For a candidate \<open>x\<close> with no more coordinates than there are bounds, the value of
  \<open>min_obj\<close> is \<open>f x\<close>, the negated Expected Improvement at \<open>x\<close>, when every coordinate
  lies in its closed interval, and \<open>DBL_MAX\<close> when some coordinate lies outside; the
  gradient is that of \<open>f\<close> around this value.
\<close>

theorem min_obj_penalty:
  assumes "length x \<le> length (bounds_m s)"
  shows "min_obj ext s x_sample x =
           (case (if \<forall>i<length x. in_bound (bounds_m s) x i
                  then f_obj ext s x_sample x else Inr DBL_MAX) of
              Inl e \<Rightarrow> Inl e
            | Inr f0 \<Rightarrow>
                (case ApproxFPrime ext x (f_obj ext s x_sample) f0 of
                   Inl e \<Rightarrow> Inl e
                 | Inr grad \<Rightarrow> Inr (f0, grad))) \<and>
         f_obj ext s x_sample x =
           (case ExpectedImprovement ext s [x] x_sample of
              Inl e \<Rightarrow> Inl e
            | Inr ei \<Rightarrow> if 0 < length ei then Inr (- (ei ! 0)) else Inl IndexOutOfRange)"
  using assms by (auto simp: min_obj_def CheckBounds_short f_obj_def)

lemma min_obj_below_max:
  assumes "min_obj ext s x_sample x = Inr (fx, grad)" and "fx < DBL_MAX"
  shows "length x \<le> length (bounds_m s) \<and> (\<forall>i<length x. in_bound (bounds_m s) x i)"
proof -
  from assms obtain b where b: "CheckBounds s x = Inr b"
    by (auto simp: min_obj_def split: sum.splits)
  with assms have "b = True"
    by (cases b) (auto simp: min_obj_def split: sum.splits)
  with b have "CheckBounds s x = Inr True"
    by simp
  then show ?thesis
    by (rule CheckBounds_True)
qed

subsection \<open>The restart loop\<close>

lemma restart_loop_results:
  "restart_loop ext s obj n i xn fm gen =
     (case restart_results ext s obj (nat (n - i)) gen of
        Inl e \<Rightarrow> Inl e
      | Inr (rs, gen') \<Rightarrow>
          Inr (fst (fold keep_best rs (xn, fm)), snd (fold keep_best rs (xn, fm)), gen'))"
proof (induction ext s obj n i xn fm gen rule: restart_loop.induct)
  case (1 ext s obj n i xn fm gen)
  show ?case
  proof (cases "i < n")
    case False
    then show ?thesis
      by (subst restart_loop.simps) simp
  next
    case True
    then have k: "nat (n - i) = Suc (nat (n - (i + 1)))" by simp
    show ?thesis
    proof (cases "draw_loop ext (dists_m s) (d_m s) 0 (replicate (d_m s) 0) gen")
      case (Inl e)
      then show ?thesis using True
        by (subst restart_loop.simps) (simp add: k)
    next
      case (Inr xg)
      obtain x gen' where xg: "xg = (x, gen')" by (cases xg)
      show ?thesis
      proof (cases "minimize ext obj x")
        case (Inl e)
        then show ?thesis using True Inr xg
          by (subst restart_loop.simps) (simp add: k)
      next
        case r: (Inr r)
        obtain x' fx where r': "r = (x', fx)" by (cases r)
        show ?thesis
        proof (cases "fx < fm")
          case lt: True
          have "restart_loop ext s obj n i xn fm gen = restart_loop ext s obj n (i + 1) x' fx gen'"
            using True Inr xg r r' lt by (subst restart_loop.simps) simp
          also note "1.IH"(1) [OF True Inr xg [symmetric] r r' [symmetric] lt]
          finally show ?thesis
            using Inr xg r r' lt by (simp add: k keep_best_def split: sum.splits)
        next
          case ge: False
          have "restart_loop ext s obj n i xn fm gen = restart_loop ext s obj n (i + 1) xn fm gen'"
            using True Inr xg r r' ge by (subst restart_loop.simps) simp
          also note "1.IH"(2) [OF True Inr xg [symmetric] r r' [symmetric] ge]
          finally show ?thesis
            using Inr xg r r' ge by (simp add: k keep_best_def split: sum.splits)
        qed
      qed
    qed
  qed
qed

lemma fold_keep_best:
  "snd (fold keep_best rs b) \<le> snd b \<and>
   (\<forall>j<length rs. snd (fold keep_best rs b) \<le> snd (rs ! j)) \<and>
   (fold keep_best rs b = b \<and> (\<forall>j<length rs. \<not> snd (rs ! j) < snd b) \<or>
    (\<exists>k<length rs. rs ! k = fold keep_best rs b \<and> snd (rs ! k) < snd b \<and>
        (\<forall>j<k. snd (rs ! k) < snd (rs ! j))))"
proof (induction rs rule: rev_induct)
  case Nil
  then show ?case by simp
next
  case (snoc r rs)
  let ?old = "fold keep_best rs b"
  have new: "fold keep_best (rs @ [r]) b = keep_best r ?old" by simp
  from snoc.IH have le_b: "snd ?old \<le> snd b"
    and le_all: "\<forall>j<length rs. snd ?old \<le> snd (rs ! j)"
    and which: "?old = b \<and> (\<forall>j<length rs. \<not> snd (rs ! j) < snd b) \<or>
      (\<exists>k<length rs. rs ! k = ?old \<and> snd (rs ! k) < snd b \<and> (\<forall>j<k. snd (rs ! k) < snd (rs ! j)))"
    by blast+
  show ?case
  proof (cases "snd r < snd ?old")
    case True
    then have kb: "keep_best r ?old = r" by (simp add: keep_best_def)
    have 1: "snd r \<le> snd b" using True le_b by simp
    have 2: "\<forall>j<length (rs @ [r]). snd r \<le> snd ((rs @ [r]) ! j)"
      using True le_all by (auto simp: nth_append less_Suc_eq)
    have 3: "\<exists>k<length (rs @ [r]). (rs @ [r]) ! k = r \<and> snd ((rs @ [r]) ! k) < snd b \<and>
        (\<forall>j<k. snd ((rs @ [r]) ! k) < snd ((rs @ [r]) ! j))"
    proof (intro exI [of _ "length rs"] conjI allI impI)
      show "length rs < length (rs @ [r])" by simp
      show "(rs @ [r]) ! length rs = r" by simp
      show "snd ((rs @ [r]) ! length rs) < snd b" using True le_b by simp
      fix j assume "j < length rs"
      then show "snd ((rs @ [r]) ! length rs) < snd ((rs @ [r]) ! j)"
        using True le_all by (auto simp: nth_append)
    qed
    show ?thesis unfolding new kb using 1 2 3 by blast
  next
    case False
    then have kb: "keep_best r ?old = ?old" by (simp add: keep_best_def)
    have 2: "\<forall>j<length (rs @ [r]). snd ?old \<le> snd ((rs @ [r]) ! j)"
      using False le_all by (auto simp: nth_append less_Suc_eq)
    from which have 3: "?old = b \<and> (\<forall>j<length (rs @ [r]). \<not> snd ((rs @ [r]) ! j) < snd b) \<or>
      (\<exists>k<length (rs @ [r]). (rs @ [r]) ! k = ?old \<and> snd ((rs @ [r]) ! k) < snd b \<and>
         (\<forall>j<k. snd ((rs @ [r]) ! k) < snd ((rs @ [r]) ! j)))"
    proof
      assume a: "?old = b \<and> (\<forall>j<length rs. \<not> snd (rs ! j) < snd b)"
      then have "\<forall>j<length (rs @ [r]). \<not> snd ((rs @ [r]) ! j) < snd b"
        using False by (auto simp: nth_append less_Suc_eq)
      with a show ?thesis by blast
    next
      assume "\<exists>k<length rs. rs ! k = ?old \<and> snd (rs ! k) < snd b \<and> (\<forall>j<k. snd (rs ! k) < snd (rs ! j))"
      then obtain k where k: "k < length rs" "rs ! k = ?old" "snd (rs ! k) < snd b"
        "\<forall>j<k. snd (rs ! k) < snd (rs ! j)" by blast
      have "k < length (rs @ [r]) \<and> (rs @ [r]) ! k = ?old \<and> snd ((rs @ [r]) ! k) < snd b \<and>
         (\<forall>j<k. snd ((rs @ [r]) ! k) < snd ((rs @ [r]) ! j))"
        using k by (auto simp: nth_append)
      then show ?thesis by blast
    qed
    show ?thesis unfolding new kb using le_b 2 3 by blast
  qed
qed

lemma restart_results_length:
  "restart_results ext s obj k gen = Inr (rs, gen') \<Longrightarrow> length rs = k"
  by (induction k arbitrary: gen rs) (auto split: sum.splits prod.splits)

lemma ProposeLocation_results:
  "ProposeLocation ext s x_sample y_sample n =
     (case restart_results ext s (min_obj ext s x_sample) (nat n) (gen_m s) of
        Inl e \<Rightarrow> Inl e
      | Inr (rs, gen') \<Rightarrow>
          Inr (fst (fold keep_best rs (replicate (d_m s) 0, DBL_MAX)), s\<lparr> gen_m := gen' \<rparr>))"
  by (simp add: ProposeLocation_def restart_loop_results split: sum.splits)


subsection \<open>NextSample\<close>

lemma assemble_Inr: "assemble c vs = Inr m \<Longrightarrow> m = vs \<and> (\<forall>v\<in>set vs. length v = c)"
  by (induction vs arbitrary: m) (auto split: if_splits sum.splits)

lemma NextSample_refit:
  assumes "NextSample ext s = Inr r"
  shows "ProposeLocation ext (refit ext s) (x_samples_m s) (y_samples_m s) n_restarts_default = Inr r
         \<and> (\<forall>v\<in>set (x_samples_m s). length v = d_m s) \<and> (\<forall>v\<in>set (y_samples_m s). length v = 1)"
  using assms
  by (auto simp: NextSample_def refit_def split: sum.splits dest!: assemble_Inr)

lemma GetDistributions_eq: "GetDistributions bounds = bounds"
proof -
  have "fold (\<lambda>bound dists. dists @ [(fst bound, snd bound)]) bs acc = acc @ bs"
    for bs acc :: "(real \<times> real) list"
    by (induction bs arbitrary: acc) simp_all
  then show ?thesis by (simp add: GetDistributions_def)
qed

lemma draw_loop_range:
  assumes "draws_in_range ext"
    and "draw_loop ext bs d j x gen = Inr (x', gen')"
    and "length x = d" and "\<forall>b\<in>set bs. fst b \<le> snd b"
    and "\<forall>i<j. i < d \<longrightarrow> in_bound bs x i"
  shows "length x' = d \<and> (\<forall>i<d. in_bound bs x' i)"
  using assms
proof (induction ext bs d j x gen rule: draw_loop.induct)
  case (1 ext bs d j x gen)
  note step = draw_loop.simps [of ext bs d j x gen]
  show ?case
  proof (cases "j < d")
    case False
    with "1.prems"(2) have "x' = x"
      unfolding step by simp
    moreover have "in_bound bs x i" if "i < d" for i
    proof -
      from that False have "i < j" by simp
      with "1.prems"(5) that show ?thesis by blast
    qed
    ultimately show ?thesis
      using "1.prems"(3) by simp
  next
    case jd: True
    show ?thesis
    proof (cases "j < length bs")
      case False
      with jd "1.prems"(2) show ?thesis
        unfolding step by simp
    next
      case jb: True
      obtain v g where vg: "uniform_real_distribution ext (bs ! j) gen = (v, g)"
        by (cases "uniform_real_distribution ext (bs ! j) gen")
      have next_call: "draw_loop ext bs d (Suc j) (x[j := v]) g = Inr (x', gen')"
        using "1.prems"(2) jd jb vg unfolding step by simp
      have "fst (bs ! j) \<le> snd (bs ! j)"
        using "1.prems"(4) jb by simp
      with "1.prems"(1) have "fst (bs ! j) \<le> fst (uniform_real_distribution ext (fst (bs ! j), snd (bs ! j)) gen)
          \<and> fst (uniform_real_distribution ext (fst (bs ! j), snd (bs ! j)) gen) \<le> snd (bs ! j)"
        unfolding draws_in_range_def by blast
      then have v: "fst (bs ! j) \<le> v \<and> v \<le> snd (bs ! j)"
        using vg by simp
      have inv: "\<forall>i<Suc j. i < d \<longrightarrow> in_bound bs (x[j := v]) i"
      proof (intro allI impI)
        fix i assume i: "i < Suc j" "i < d"
        show "in_bound bs (x[j := v]) i"
        proof (cases "i = j")
          case True
          with v "1.prems"(3) jd show ?thesis by (simp add: in_bound_def)
        next
          case False
          with i have "i < j" by simp
          with "1.prems"(5) i have "in_bound bs x i" by blast
          with False show ?thesis by (simp add: in_bound_def)
        qed
      qed
      have len: "length (x[j := v]) = d"
        using "1.prems"(3) by simp
      show ?thesis
        by (rule "1.IH" [OF jd jb vg [symmetric] refl "1.prems"(1) next_call len "1.prems"(4) inv])
    qed
  qed
qed

lemma restart_results_start:
  "restart_results ext s obj k gen = Inr (rs, gen') \<Longrightarrow> p \<in> set rs \<Longrightarrow>
   \<exists>x0 g g'. draw_loop ext (dists_m s) (d_m s) 0 (replicate (d_m s) 0) g = Inr (x0, g') \<and>
      minimize ext obj x0 = Inr p"
proof (induction k arbitrary: gen rs)
  case 0
  then show ?case by simp
next
  case (Suc k)
  show ?case
  proof (cases "draw_loop ext (dists_m s) (d_m s) 0 (replicate (d_m s) 0) gen")
    case (Inl e)
    with Suc.prems(1) show ?thesis by simp
  next
    case (Inr xg)
    obtain x0 g1 where xg: "xg = (x0, g1)" by (cases xg)
    show ?thesis
    proof (cases "minimize ext obj x0")
      case (Inl e)
      with Suc.prems(1) Inr xg show ?thesis by simp
    next
      case m: (Inr r)
      show ?thesis
      proof (cases "restart_results ext s obj k g1")
        case (Inl e)
        with Suc.prems(1) Inr xg m show ?thesis by simp
      next
        case rest: (Inr rg)
        obtain rs' g2 where rg: "rg = (rs', g2)" by (cases rg)
        from Suc.prems(1) Inr xg m rest rg have rs: "rs = r # rs'" and "g2 = gen'"
          by simp_all
        with rest rg have rest': "restart_results ext s obj k g1 = Inr (rs', gen')" by simp
        from Suc.prems(2) rs have "p = r \<or> p \<in> set rs'" by auto
        then show ?thesis
        proof
          assume "p = r"
          with Inr xg m show ?thesis by blast
        next
          assume "p \<in> set rs'"
          with Suc.IH [OF rest'] show ?thesis by blast
        qed
      qed
    qed
  qed
qed

lemma NextSample_picks:
  assumes "NextSample ext s = Inr (x_next, s')"
  shows "\<exists>rs gen'.
           restart_results ext (refit ext s) (min_obj ext (refit ext s) (x_samples_m s))
             (nat n_restarts_default) (gen_m s) = Inr (rs, gen') \<and>
           length rs = nat n_restarts_default \<and>
           ((\<forall>p\<in>set rs. \<not> snd p < DBL_MAX) \<and> x_next = replicate (d_m s) 0 \<or>
            (\<exists>p\<in>set rs. snd p < DBL_MAX \<and> x_next = fst p))"
proof -
  let ?s = "refit ext s"
  have P: "ProposeLocation ext ?s (x_samples_m s) (y_samples_m s) n_restarts_default = Inr (x_next, s')"
    using NextSample_refit [OF assms] by simp
  then obtain rs gen' where
    rs: "restart_results ext ?s (min_obj ext ?s (x_samples_m s)) (nat n_restarts_default) (gen_m ?s) = Inr (rs, gen')"
    and x: "x_next = fst (fold keep_best rs (replicate (d_m ?s) 0, DBL_MAX))"
    by (auto simp: ProposeLocation_results split: sum.splits)
  let ?b = "(replicate (d_m ?s) 0 :: vector, DBL_MAX)"
  let ?r = "fold keep_best rs ?b"
  have len: "length rs = nat n_restarts_default"
    using rs by (rule restart_results_length)
  from fold_keep_best [of rs ?b]
  have which: "?r = ?b \<and> (\<forall>j<length rs. \<not> snd (rs ! j) < DBL_MAX) \<or>
      (\<exists>k<length rs. rs ! k = ?r \<and> snd (rs ! k) < DBL_MAX \<and> (\<forall>j<k. snd (rs ! k) < snd (rs ! j)))"
    by simp
  have "(\<forall>p\<in>set rs. \<not> snd p < DBL_MAX) \<and> x_next = replicate (d_m s) 0 \<or>
        (\<exists>p\<in>set rs. snd p < DBL_MAX \<and> x_next = fst p)"
    using which
  proof
    assume a: "?r = ?b \<and> (\<forall>j<length rs. \<not> snd (rs ! j) < DBL_MAX)"
    then have "\<forall>p\<in>set rs. \<not> snd p < DBL_MAX"
      by (metis in_set_conv_nth)
    moreover have "x_next = replicate (d_m s) 0" using a x by (simp add: refit_def)
    ultimately show ?thesis by simp
  next
    assume "\<exists>k<length rs. rs ! k = ?r \<and> snd (rs ! k) < DBL_MAX \<and> (\<forall>j<k. snd (rs ! k) < snd (rs ! j))"
    then obtain k where k: "k < length rs" "rs ! k = ?r" "snd (rs ! k) < DBL_MAX" by blast
    from k(1) have mem: "rs ! k \<in> set rs" by (rule nth_mem)
    moreover have "x_next = fst (rs ! k)" using x k by simp
    ultimately show ?thesis using k(3) by blast
  qed
  moreover have "gen_m ?s = gen_m s" by (simp add: refit_def)
  ultimately show ?thesis using rs len by auto
qed

text \<open>
  C1. Take a session constructed with bounds whose intervals are ordered
  (\<open>low \<le> high\<close>), a solver that is a descent method, reports the value of the objective
  at the point it returns and keeps the number of coordinates, distributions that draw
  within their intervals, and predictions for which the negated Expected Improvement,
  where defined, is below \<open>DBL_MAX\<close>. Then whenever \<open>NextSample\<close> returns, the point it
  returns has \<open>d\<close> coordinates and each lies in its closed interval \<open>[low_i, high_i]\<close>;
  the zero vector the loop starts from is never what is returned, because the first
  restart already ends below \<open>DBL_MAX\<close>.
\<close>

theorem NextSample_within_bounds:
  assumes session: "session_of ext bounds alpha xi s"
    and ordered: "\<forall>b\<in>set bounds. fst b \<le> snd b"
    and solver: "reports_value ext" "descent ext" "keeps_size ext"
    and draws: "draws_in_range ext"
    and finite: "objective_below_max ext (refit ext s) (x_samples_m s)"
    and returns: "NextSample ext s = Inr (x_next, s')"
  shows "length x_next = length bounds \<and> (\<forall>i<length bounds. in_bound bounds x_next i)"
proof -
  let ?s = "refit ext s"
  let ?obj = "min_obj ext ?s (x_samples_m s)"
  from session have d: "d_m s = length bounds" and b: "bounds_m s = bounds"
    and ds: "dists_m s = bounds"
    by (simp_all add: session_of_def GetDistributions_eq)
  have fields: "d_m ?s = length bounds" "bounds_m ?s = bounds" "dists_m ?s = bounds"
    using d b ds by (simp_all add: refit_def)
  from NextSample_picks [OF returns] obtain rs gen' where
    rs: "restart_results ext ?s ?obj (nat n_restarts_default) (gen_m s) = Inr (rs, gen')"
    and len: "length rs = nat n_restarts_default"
    and pick: "(\<forall>p\<in>set rs. \<not> snd p < DBL_MAX) \<and> x_next = replicate (d_m s) 0 \<or>
               (\<exists>p\<in>set rs. snd p < DBL_MAX \<and> x_next = fst p)"
    by blast
  have every: "snd p < DBL_MAX \<and> length (fst p) = length bounds \<and>
               (\<forall>i<length bounds. in_bound bounds (fst p) i)" if p: "p \<in> set rs" for p
  proof -
    from restart_results_start [OF rs p] obtain x0 g g' where
      dr: "draw_loop ext bounds (length bounds) 0 (replicate (length bounds) 0) g = Inr (x0, g')"
      and m: "minimize ext ?obj x0 = Inr (fst p, snd p)"
      unfolding fields by auto
    from draw_loop_range [OF draws dr _ ordered]
    have x0: "length x0 = length bounds" "\<forall>i<length bounds. in_bound bounds x0 i"
      by simp_all
    from solver(2) m obtain f0 grad0 where
      o0: "?obj x0 = Inr (f0, grad0)" and le: "snd p \<le> f0"
      unfolding descent_def by blast
    have "length x0 \<le> length (bounds_m ?s)" "\<forall>i<length x0. in_bound (bounds_m ?s) x0 i"
      using x0 by (simp_all add: fields)
    then have "CheckBounds ?s x0 = Inr True"
      by (simp add: CheckBounds_short)
    with o0 have "f_obj ext ?s (x_samples_m s) x0 = Inr f0"
      by (auto simp: min_obj_def split: sum.splits)
    with finite have "f0 < DBL_MAX"
      unfolding objective_below_max_def by blast
    with le have below: "snd p < DBL_MAX" by simp
    from solver(1) m obtain grad where "?obj (fst p) = Inr (snd p, grad)"
      unfolding reports_value_def by blast
    from min_obj_below_max [OF this below]
    have inside: "length (fst p) \<le> length bounds \<and> (\<forall>i<length (fst p). in_bound bounds (fst p) i)"
      by (simp add: fields)
    from solver(3) m have "length (fst p) = length x0"
      unfolding keeps_size_def by blast
    with x0 inside below show ?thesis by simp
  qed
  have "rs \<noteq> []"
    using len by (auto simp: n_restarts_default_def)
  then obtain p0 where "p0 \<in> set rs" by (cases rs) auto
  with every have "\<not> (\<forall>p\<in>set rs. \<not> snd p < DBL_MAX)" by blast
  with pick obtain p where "p \<in> set rs" "x_next = fst p" by blast
  with every show ?thesis by simp
qed

subsection \<open>Sessions, determinism and Clear\<close>

lemma NextSample_cong:
  assumes "d_m s1 = d_m s2" "bounds_m s1 = bounds_m s2" "xi_m s1 = xi_m s2"
    "dists_m s1 = dists_m s2" "gen_m s1 = gen_m s2"
    "x_samples_m s1 = x_samples_m s2" "y_samples_m s1 = y_samples_m s2"
    and fit: "\<And>X y. Fit ext (gpr_m s1) X y = Fit ext (gpr_m s2) X y"
  shows "NextSample ext s1 = NextSample ext s2"
proof -
  have "s1\<lparr> gpr_m := g \<rparr> = s2\<lparr> gpr_m := g \<rparr>" for g
    using assms(1-7) by (intro BayesianOptimization.equality) simp_all
  then have "s1\<lparr> gpr_m := Fit ext (gpr_m s1) X y \<rparr> = s2\<lparr> gpr_m := Fit ext (gpr_m s2) X y \<rparr>" for X y
    by (simp add: fit)
  then show ?thesis
    using assms(1,6,7) by (simp add: NextSample_def cong: sum.case_cong)
qed

lemma Fit_any:
  assumes "Fit_deterministic ext" "regressor_of ext alpha g1" "regressor_of ext alpha g2"
  shows "Fit ext g1 X y = Fit ext g2 X y"
  using assms unfolding Fit_deterministic_def by metis

lemma session_of_init: "session_of ext bounds alpha xi (BayesianOptimization_init ext bounds alpha xi seed)"
  by (simp add: session_of_def BayesianOptimization_init_def regressor_of.constructed)

lemma session_of_AddSample_vec:
  "session_of ext bounds alpha xi s \<Longrightarrow> session_of ext bounds alpha xi (AddSample_vec s x y)"
  by (simp add: session_of_def AddSample_vec_def)

lemma session_of_AddSample:
  "session_of ext bounds alpha xi s \<Longrightarrow> session_of ext bounds alpha xi (AddSample s x y)"
  by (simp add: AddSample_def session_of_AddSample_vec)

lemma session_of_Clear:
  "session_of ext bounds alpha xi s \<Longrightarrow> session_of ext bounds alpha xi (Clear s)"
  by (simp add: session_of_def Clear_def)

lemma session_of_NextSample:
  assumes "session_of ext bounds alpha xi s" "NextSample ext s = Inr (x, s')"
  shows "session_of ext bounds alpha xi s'"
  using assms
  by (auto simp: session_of_def NextSample_def ProposeLocation_def regressor_of.refitted
      split: sum.splits prod.splits)

lemma session_of_add_all:
  "session_of ext bounds alpha xi s \<Longrightarrow> session_of ext bounds alpha xi (add_all s samples)"
  unfolding add_all_def
  by (induction samples arbitrary: s) (auto simp: session_of_AddSample_vec)

lemma add_all_fields:
  "gen_m (add_all s samples) = gen_m s \<and>
   x_samples_m (add_all s samples) = x_samples_m s @ map fst samples \<and>
   y_samples_m (add_all s samples) = y_samples_m s @ map snd samples"
  unfolding add_all_def
  by (induction samples arbitrary: s) (auto simp: AddSample_vec_def)

lemma NextSample_sessions:
  assumes "Fit_deterministic ext"
    and "session_of ext bounds alpha xi s1" and "session_of ext bounds alpha xi s2"
    and "gen_m s1 = gen_m s2"
    and "x_samples_m s1 = x_samples_m s2" and "y_samples_m s1 = y_samples_m s2"
  shows "NextSample ext s1 = NextSample ext s2"
proof (rule NextSample_cong)
  show "Fit ext (gpr_m s1) X y = Fit ext (gpr_m s2) X y" for X y
    using assms(1-3) by (intro Fit_any [of ext alpha]) (simp_all add: session_of_def)
qed (insert assms, simp_all add: session_of_def)

text \<open>
  C8. Let \<open>Fit\<close> be determined by the data and \<open>alpha\<close>. Two sessions constructed with
  the same bounds, \<open>alpha\<close> and \<open>xi\<close>, whatever was done with them since, whose engines
  are in the same state and whose sample stores are equal, get the same result from
  \<open>NextSample\<close>: the same proposal (or the same failure) and the same session after it.
\<close>

theorem NextSample_deterministic:
  assumes "Fit_deterministic ext"
    and "session_of ext bounds alpha xi s1" and "session_of ext bounds alpha xi s2"
    and "gen_m s1 = gen_m s2"
    and "x_samples_m s1 = x_samples_m s2" and "y_samples_m s1 = y_samples_m s2"
  shows "NextSample ext s1 = NextSample ext s2"
  using assms by (rule NextSample_sessions)

text \<open>
  C9 (as amended). Let \<open>Fit\<close> be determined by the data and \<open>alpha\<close>. After \<open>Clear\<close>, adding
  samples and calling \<open>NextSample\<close> gives what the same calls give on a session newly
  constructed with the same bounds, \<open>alpha\<close> and \<open>xi\<close> whose engine starts in the state
  the engine of the cleared session is in: the samples and the stale fit from before
  the \<open>Clear\<close> have no effect, and the engine is not reset.
\<close>

theorem Clear_like_fresh_with_engine:
  assumes "Fit_deterministic ext" and "session_of ext bounds alpha xi s"
  shows "NextSample ext (add_all (Clear s) samples) =
         NextSample ext (add_all (BayesianOptimization_init ext bounds alpha xi (gen_m s)) samples)"
proof (rule NextSample_sessions [OF assms(1)])
  show "session_of ext bounds alpha xi (add_all (Clear s) samples)"
    using assms(2) by (intro session_of_add_all session_of_Clear)
  show "session_of ext bounds alpha xi
          (add_all (BayesianOptimization_init ext bounds alpha xi (gen_m s)) samples)"
    by (intro session_of_add_all session_of_init)
qed (simp_all add: add_all_fields Clear_def BayesianOptimization_init_def)

subsection \<open>Concrete runs\<close>

lemma DBL_MAX_pos: "0 < DBL_MAX"
  by (simp add: DBL_MAX_def)

lemmas run_defs =
  NextSample_def AddSample_def AddSample_vec_def Clear_def add_all_def
  example_session_def shifted_session_def used_session_def
  BayesianOptimization_init_def GetDistributions_def ProposeLocation_def n_restarts_default_def
  restart_loop.simps draw_loop.simps min_obj_def f_obj_def ExpectedImprovement_def
  cwise_def CheckBounds_def CheckBounds_loop.simps
  certain_ext_def unit_ext_def example_ext_def stay_put_def
  counter_uniform_def predict_certain_def predict_unit_def Let_def

lemma reports_value_stay_put: "reports_value (example_ext predict stay_put)"
  by (auto simp: reports_value_def example_ext_def stay_put_def split: sum.splits)

lemma regressor_of_example:
  "regressor_of (example_ext predict solver) alpha g \<Longrightarrow> fst g = alpha"
  by (induction rule: regressor_of.induct) (simp_all add: example_ext_def)

lemma Fit_deterministic_example: "Fit_deterministic (example_ext predict solver)"
  unfolding Fit_deterministic_def
proof (intro allI impI)
  fix alpha g X y
  assume "regressor_of (example_ext predict solver) alpha g"
  then have "fst g = alpha" by (rule regressor_of_example)
  then show "Fit (example_ext predict solver) g X y =
      Fit (example_ext predict solver) (GaussianProcessRegressor (example_ext predict solver) alpha) X y"
    by (simp add: example_ext_def)
qed

text \<open>C2 at a point: the certain prediction has deviation 0 at the query \<open>0.25\<close>.\<close>

theorem ExpectedImprovement_zero_sigma_witness:
  "snd (Predict certain_ext (gpr_m (example_session certain_ext 0)) [[1 / 4]]) ! 0 = 0 \<and>
   (\<exists>ei. ExpectedImprovement certain_ext (example_session certain_ext 0) [[1 / 4]] [[1 / 2]] = Inr ei \<and>
      0 < length ei \<and> ei ! 0 = 0)"
proof -
  let ?s = "example_session certain_ext 0"
  have 1: "fst (Predict certain_ext (gpr_m ?s) [[1 / 2]]) \<noteq> []"
    and 2: "length (fst (Predict certain_ext (gpr_m ?s) [[1 / 4]])) =
            length (snd (Predict certain_ext (gpr_m ?s) [[1 / 4]]))"
    and 3: "0 < length (snd (Predict certain_ext (gpr_m ?s) [[1 / 4]]))"
    and 4: "snd (Predict certain_ext (gpr_m ?s) [[1 / 4]]) ! 0 = 0"
    by (simp_all add: certain_ext_def example_ext_def predict_certain_def)
  from ExpectedImprovement_zero_sigma [OF 1 2 3 4] 4 show ?thesis by blast
qed

text \<open>C3 at a point: mean \<open>0.25\<close>, deviation 1, threshold \<open>0.5\<close>, \<open>xi = 0.01\<close>.\<close>

theorem ExpectedImprovement_formula_witness:
  "snd (Predict unit_ext (gpr_m (example_session unit_ext 0)) [[1 / 4]]) ! 0 \<noteq> 0 \<and>
   (\<exists>ei. ExpectedImprovement unit_ext (example_session unit_ext 0) [[1 / 4]] [[1 / 2]] = Inr ei \<and>
      0 < length ei \<and> ei ! 0 = spec_EI example_erfc (1 / 4) 1 (1 / 2) (1 / 100))"
proof -
  let ?s = "example_session unit_ext 0"
  have 1: "fst (Predict unit_ext (gpr_m ?s) [[1 / 2]]) \<noteq> []"
    and 2: "length (fst (Predict unit_ext (gpr_m ?s) [[1 / 4]])) =
            length (snd (Predict unit_ext (gpr_m ?s) [[1 / 4]]))"
    and 3: "0 < length (snd (Predict unit_ext (gpr_m ?s) [[1 / 4]]))"
    and 4: "snd (Predict unit_ext (gpr_m ?s) [[1 / 4]]) ! 0 \<noteq> 0"
    by (simp_all add: unit_ext_def example_ext_def predict_unit_def)
  have 5: "maxCoeff (fst (Predict unit_ext (gpr_m ?s) [[1 / 2]])) = Inr (1 / 2)"
    "fst (Predict unit_ext (gpr_m ?s) [[1 / 4]]) ! 0 = 1 / 4"
    "snd (Predict unit_ext (gpr_m ?s) [[1 / 4]]) ! 0 = 1"
    "std_erfc unit_ext = example_erfc" "xi_m ?s = 1 / 100"
    by (simp_all add: unit_ext_def example_ext_def predict_unit_def example_session_def
        BayesianOptimization_init_def)
  from ExpectedImprovement_formula [OF 1 2 3 4] obtain ei m where
    a: "ExpectedImprovement unit_ext ?s [[1 / 4]] [[1 / 2]] = Inr ei" "0 < length ei"
      "maxCoeff (fst (Predict unit_ext (gpr_m ?s) [[1 / 2]])) = Inr m"
      "ei ! 0 = spec_EI (std_erfc unit_ext) (fst (Predict unit_ext (gpr_m ?s) [[1 / 4]]) ! 0)
                  (snd (Predict unit_ext (gpr_m ?s) [[1 / 4]]) ! 0) m (xi_m ?s)"
    by blast
  from a(3) have "m = 1 / 2" unfolding 5 by simp
  with a(4) have "ei ! 0 = spec_EI example_erfc (1 / 4) 1 (1 / 2) (1 / 100)"
    unfolding 5 by simp
  with a(1,2) 4 show ?thesis by blast
qed

text \<open>C4 at a point: the fitted means at the inputs \<open>0.5\<close> and \<open>0.75\<close> are \<open>0.5\<close> and \<open>0.75\<close>; the threshold is \<open>0.75\<close>.\<close>

theorem threshold_is_fitted_mean_witness:
  "\<exists>ei. ExpectedImprovement unit_ext (example_session unit_ext 0) [[1 / 4]] [[1 / 2], [3 / 4]] = Inr ei \<and>
      ei = [spec_EI example_erfc (1 / 4) 1 (3 / 4) (1 / 100)]"
proof -
  let ?s = "example_session unit_ext 0"
  obtain ei where ei: "ExpectedImprovement unit_ext ?s [[1 / 4]] [[1 / 2], [3 / 4]] = Inr ei"
    by (simp add: ExpectedImprovement_char unit_ext_def example_ext_def predict_unit_def)
  have 5: "fst (Predict unit_ext (gpr_m ?s) [[1 / 2], [3 / 4]]) = [1 / 2, 3 / 4]"
    "Predict unit_ext (gpr_m ?s) [[1 / 4]] = ([1 / 4], [1])"
    "std_erfc unit_ext = example_erfc" "xi_m ?s = 1 / 100"
    by (simp_all add: unit_ext_def example_ext_def predict_unit_def example_session_def
        BayesianOptimization_init_def)
  from threshold_is_fitted_mean [OF ei]
  have "ei = [spec_EI example_erfc (1 / 4) 1 (3 / 4) (1 / 100)]"
    unfolding 5 by simp
  with ei show ?thesis by blast
qed

text \<open>C6 at two points: the endpoint 1 of \<open>[0, 1]\<close> is inside, 2 is outside.\<close>

theorem min_obj_penalty_witness:
  "min_obj certain_ext (example_session certain_ext 0) [[1 / 2]] [1] = Inr (0, [0]) \<and>
   min_obj certain_ext (example_session certain_ext 0) [[1 / 2]] [2] = Inr (DBL_MAX, [0])"
proof -
  let ?s = "example_session certain_ext 0"
  have b: "bounds_m ?s = [(0, 1)]" by (rule example_session_bounds)
  have f: "f_obj certain_ext ?s [[1 / 2]] [1] = Inr 0"
    by (simp add: run_defs)
  have g: "ApproxFPrime certain_ext x f f0 = Inr (replicate (length x) 0)" for x f f0
    by (simp add: certain_ext_def example_ext_def)
  have 1: "length [1 :: real] \<le> length (bounds_m ?s)" "length [2 :: real] \<le> length (bounds_m ?s)"
    by (simp_all add: b)
  have y: "\<forall>i<length [1 :: real]. in_bound (bounds_m ?s) [1] i"
    by (simp add: b in_bound_def)
  have n: "\<not> (\<forall>i<length [2 :: real]. in_bound (bounds_m ?s) [2] i)"
    by (auto simp: b in_bound_def)
  show ?thesis
    unfolding min_obj_penalty [OF 1(1), of certain_ext "[[1 / 2]]", THEN conjunct1]
      min_obj_penalty [OF 1(2), of certain_ext "[[1 / 2]]", THEN conjunct1]
      if_P [OF y] if_not_P [OF n]
    by (simp add: f g)
qed










lemma run_fresh:
  "NextSample certain_ext (AddSample (example_session certain_ext 1) [1 / 4] 5) = Inr ([1 / 4], used_session)"
  by (simp add: run_defs DBL_MAX_pos)

lemma run_used:
  "NextSample certain_ext (AddSample (Clear used_session) [1 / 4] 5) =
     Inr ([1 / 2], used_session \<lparr> gen_m := 51 \<rparr>)"
  by (simp add: run_defs DBL_MAX_pos)



lemma descent_stay_put: "descent (example_ext predict stay_put)"
  by (auto simp: descent_def example_ext_def stay_put_def split: sum.splits)

lemma keeps_size_stay_put: "keeps_size (example_ext predict stay_put)"
  by (auto simp: keeps_size_def example_ext_def stay_put_def split: sum.splits)

lemma draws_in_range_counter: "draws_in_range (example_ext predict solver)"
  unfolding draws_in_range_def
proof (intro allI impI)
  fix a b :: real and gen :: nat
  assume ab: "a \<le> b"
  let ?q = "real (gen mod 4) / 4"
  have q: "0 \<le> ?q" "?q \<le> 1"
  proof -
    have "gen mod 4 < 4" by simp
    then have "real (gen mod 4) \<le> 4" by linarith
    then show "?q \<le> 1" by simp
  qed simp
  have "0 \<le> (b - a) * ?q" using ab q(1) by simp
  moreover have "(b - a) * ?q \<le> (b - a) * 1"
    using ab q(2) by (intro mult_left_mono) simp_all
  ultimately show "a \<le> fst (uniform_real_distribution (example_ext predict solver) (a, b) gen) \<and>
      fst (uniform_real_distribution (example_ext predict solver) (a, b) gen) \<le> b"
    by (simp add: example_ext_def counter_uniform_def)
qed

lemma objective_below_max_certain: "objective_below_max certain_ext s x_sample"
  unfolding objective_below_max_def
proof (intro allI impI)
  fix x v
  assume "f_obj certain_ext s x_sample x = Inr v"
  then have "v = 0"
    by (auto simp: f_obj_def ExpectedImprovement_char certain_ext_def example_ext_def
        predict_certain_def Let_def split: sum.splits if_splits)
  then show "v < DBL_MAX" by (simp add: DBL_MAX_pos)
qed

lemma run_shifted:
  "NextSample certain_ext (shifted_session certain_ext) =
     Inr ([1], shifted_session certain_ext \<lparr> gen_m := 25, gpr_m := (1 / 1000000, [[3 / 2]], [[2]]) \<rparr>)"
  by (simp add: run_defs DBL_MAX_pos)

text \<open>
  C1 on a run: bounds \<open>[1, 2]\<close>, which do not contain 0; the proposal is 1.
\<close>

theorem NextSample_within_bounds_witness:
  "session_of certain_ext [(1, 2)] (1 / 1000000) (1 / 100) (shifted_session certain_ext) \<and>
   reports_value certain_ext \<and> descent certain_ext \<and> keeps_size certain_ext \<and>
   draws_in_range certain_ext \<and>
   objective_below_max certain_ext (refit certain_ext (shifted_session certain_ext))
     (x_samples_m (shifted_session certain_ext)) \<and>
   map_sum id fst (NextSample certain_ext (shifted_session certain_ext)) = Inr [1] \<and>
   length [1 :: real] = length [(1, 2) :: real \<times> real] \<and> in_bound [(1, 2)] [1] 0"
proof -
  let ?s = "shifted_session certain_ext"
  have session: "session_of certain_ext [(1, 2)] (1 / 1000000) (1 / 100) ?s"
    unfolding shifted_session_def by (intro session_of_AddSample session_of_init)
  have ordered: "\<forall>b\<in>set [(1, 2) :: real \<times> real]. fst b \<le> snd b"
    by simp
  have solver: "reports_value certain_ext" "descent certain_ext" "keeps_size certain_ext"
    unfolding certain_ext_def
    by (rule reports_value_stay_put descent_stay_put keeps_size_stay_put)+
  have draws: "draws_in_range certain_ext"
    unfolding certain_ext_def by (rule draws_in_range_counter)
  have finite: "objective_below_max certain_ext (refit certain_ext ?s) (x_samples_m ?s)"
    by (rule objective_below_max_certain)
  from NextSample_within_bounds [OF session ordered solver draws finite run_shifted]
  have "length [1 :: real] = length [(1, 2) :: real \<times> real] \<and> in_bound [(1, 2)] [1] 0"
    by simp
  with session solver draws finite run_shifted show ?thesis
    by simp
qed

lemma session_of_used: "session_of certain_ext [(0, 1)] (1 / 1000000) (1 / 100) used_session"
proof -
  have "session_of certain_ext [(0, 1)] (1 / 1000000) (1 / 100)
          (AddSample (example_session certain_ext 1) [1 / 4] 5)"
    unfolding example_session_def by (intro session_of_AddSample session_of_init)
  then show ?thesis
    using run_fresh by (rule session_of_NextSample)
qed

text \<open>C8 on two sessions with different histories: one used and cleared, one new; both with the engine at 26 and the sample \<open>0.5 -> 2.0\<close>.\<close>

theorem NextSample_deterministic_witness:
  "Fit_deterministic certain_ext \<and>
   gpr_m (AddSample (Clear used_session) [1 / 2] 2) \<noteq> gpr_m (AddSample (example_session certain_ext 26) [1 / 2] 2) \<and>
   NextSample certain_ext (AddSample (Clear used_session) [1 / 2] 2) =
   NextSample certain_ext (AddSample (example_session certain_ext 26) [1 / 2] 2)"
proof -
  let ?s1 = "AddSample (Clear used_session) [1 / 2] 2"
  let ?s2 = "AddSample (example_session certain_ext 26) [1 / 2] 2"
  have fd: "Fit_deterministic certain_ext"
    unfolding certain_ext_def by (rule Fit_deterministic_example)
  have 1: "session_of certain_ext [(0, 1)] (1 / 1000000) (1 / 100) ?s1"
    by (intro session_of_AddSample session_of_Clear session_of_used)
  have 2: "session_of certain_ext [(0, 1)] (1 / 1000000) (1 / 100) ?s2"
    unfolding example_session_def by (intro session_of_AddSample session_of_init)
  have 3: "gen_m ?s1 = gen_m ?s2" "x_samples_m ?s1 = x_samples_m ?s2"
    "y_samples_m ?s1 = y_samples_m ?s2"
    by (simp_all add: run_defs)
  have 4: "gpr_m ?s1 \<noteq> gpr_m ?s2"
    by (simp add: run_defs)
  from NextSample_deterministic [OF fd 1 2 3] fd 4 show ?thesis by blast
qed

text \<open>C9 (as amended) on the used session.\<close>

theorem Clear_like_fresh_with_engine_witness:
  "Fit_deterministic certain_ext \<and>
   session_of certain_ext [(0, 1)] (1 / 1000000) (1 / 100) used_session \<and>
   NextSample certain_ext (add_all (Clear used_session) [([1 / 4], [5])]) =
   NextSample certain_ext
     (add_all (BayesianOptimization_init certain_ext [(0, 1)] (1 / 1000000) (1 / 100) 26) [([1 / 4], [5])])"
proof -
  have fd: "Fit_deterministic certain_ext"
    unfolding certain_ext_def by (rule Fit_deterministic_example)
  have g: "gen_m used_session = 26" by (simp add: used_session_def)
  from Clear_like_fresh_with_engine [OF fd session_of_used, of "[([1 / 4], [5])]"] fd session_of_used
  show ?thesis unfolding g by blast
qed

text \<open>C9 as stated fails: a session constructed with seed 1 proposes \<open>0.25\<close> for the sample \<open>0.25 -> 5.0\<close>; after that call, \<open>Clear\<close> and the same sample, it proposes \<open>0.5\<close>, while a session newly constructed in the same way proposes \<open>0.25\<close> again.\<close>

theorem Clear_keeps_engine_counterexample:
  "NextSample certain_ext (AddSample (example_session certain_ext 1) [1 / 4] 5) = Inr ([1 / 4], used_session) \<and>
   map_sum id fst (NextSample certain_ext (AddSample (Clear used_session) [1 / 4] 5)) = Inr [1 / 2] \<and>
   map_sum id fst (NextSample certain_ext (AddSample (example_session certain_ext 1) [1 / 4] 5)) = Inr [1 / 4]"
  using run_fresh run_used by simp

end
